theory Spec2Isabelle
  imports Main "HOL-Library.AList" "HOL-Library.Word"
begin

section \<open>The scheduler package: named jobs on top of a cron library\<close>

text \<open>
  The package \<open>scheduler\<close> keeps a registry of named jobs (a Go map from the job's name
  to a \<open>Job\<close> value) beside an instance of the cron library
  \<open>github.com/robfig/cron/v3\<close>, and a small life cycle (\<open>Start\<close>, \<open>Stop\<close>,
  \<open>Running\<close>). The embedding is sequential: every exported method takes the mutex
  \<open>mu\<close> for its whole body (\<open>Stop\<close> for its first half), so a method is one
  atomic step on the scheduler's state, written as a function from the state to the
  result and the new state.

  What the package imports is not part of it. The calls into the cron library and into
  package \<open>time\<close> are taken as a parameter \<open>L\<close> of every operation, and the theorems
  hold for every \<open>L\<close>. Loggers and time zones are handles; a nil logger or a nil time
  zone is outside the model.
\<close>

subsection \<open>Contexts\<close>

text \<open>
  A \<open>context.Context\<close> is \<open>Background\<close>, a context made by someone else (the caller
  of the package, or the cron library), or a child made here by
  \<open>context.WithCancel(parent)\<close>; the number tells the children of one parent apart.
  A nil context is \<open>None\<close> of type \<open>ctx option\<close>. The contexts whose cancel function
  has been called are kept in a set, since a context is shared between the scheduler,
  the job bodies and the caller of \<open>Stop\<close>.
\<close>

datatype ctx = Background | Foreign nat | WithCancel nat ctx

fun is_done :: "ctx set \<Rightarrow> ctx \<Rightarrow> bool" where
  "is_done C Background = False"
| "is_done C (Foreign n) = (Foreign n \<in> C)"
| "is_done C (WithCancel i parent) = (WithCancel i parent \<in> C \<or> is_done C parent)"

subsection \<open>Data of the package\<close>

type_synonym logger_ref = nat
type_synonym location_ref = nat
type_synonym work = nat
type_synonym duration = "64 word"

definition slog_Default :: logger_ref where
  "slog_Default = 0"

definition time_UTC :: location_ref where
  "time_UTC = 0"

datatype error = CronError string

record Job =
  Name :: string
  Schedule :: string
  EntryID :: int

datatype sched_option =
    WithBaseContext "ctx option"
  | WithLogger logger_ref
  | WithLocation location_ref
  | WithSkipIfRunning

datatype attr = AStr string | ANum nat

datatype level = LevelDebug | LevelInfo | LevelError

type_synonym log_event = "level \<times> string \<times> (string \<times> attr) list"

text \<open>
  The fields an \<open>Option\<close> may set come first; \<open>New\<close> applies the options before the
  cron instance exists. \<open>jobs\<close> is the Go map as an association list (the order of a Go
  map is unspecified; no statement below depends on it). \<open>runCancel\<close> holds the
  context that the stored cancel function cancels. \<open>ctx_next\<close> and \<open>ctx_done\<close> are
  the part of the heap that the contexts made here live in, and \<open>events\<close> is what was
  handed to the logger.
\<close>

record config =
  logger :: logger_ref
  location :: location_ref
  skipIfRunning :: bool
  baseCtx :: "ctx option"

record 'c Scheduler = config +
  cron :: 'c
  jobs :: "(string \<times> Job) list"
  started :: bool
  runCtx :: "ctx option"
  runCancel :: "ctx option"
  ctx_next :: nat
  ctx_done :: "ctx set"
  events :: "log_event list"

subsection \<open>What the package imports\<close>

datatype wrapper = Recover logger_ref | SkipIfStillRunning logger_ref

datatype cron_option =
    CronWithLocation location_ref
  | CronWithLogger logger_ref
  | CronWithChain "wrapper list"

text \<open>
  \<open>cron_AddFunc spec cmd c\<close> is \<open>c.AddFunc(spec, cmd)\<close>: an error, or the identifier of
  the new entry. \<open>cron_Stop\<close> returns the context that the library closes once the
  jobs it started have returned. \<open>duration_String\<close> is \<open>time.Duration.String\<close>.
\<close>

record 'c deps =
  cron_New :: "cron_option list \<Rightarrow> 'c"
  cron_AddFunc :: "string \<Rightarrow> work \<Rightarrow> 'c \<Rightarrow> (error + int) \<times> 'c"
  cron_Remove :: "int \<Rightarrow> 'c \<Rightarrow> 'c"
  cron_Start :: "'c \<Rightarrow> 'c"
  cron_Stop :: "'c \<Rightarrow> ctx \<times> 'c"
  duration_String :: "duration \<Rightarrow> string"

subsection \<open>Options and construction\<close>

fun apply_option :: "sched_option \<Rightarrow> 'a config_scheme \<Rightarrow> 'a config_scheme" where
  "apply_option (WithBaseContext c) s = (if c = None then s else s\<lparr>baseCtx := c\<rparr>)"
| "apply_option (WithLogger l) s = s\<lparr>logger := l\<rparr>"
| "apply_option (WithLocation loc) s = s\<lparr>location := loc\<rparr>"
| "apply_option WithSkipIfRunning s = s\<lparr>skipIfRunning := True\<rparr>"

definition default_config :: config where
  "default_config =
     \<lparr>logger = slog_Default, location = time_UTC, skipIfRunning = False,
      baseCtx = Some Background\<rparr>"

definition chain_of :: "'a config_scheme \<Rightarrow> wrapper list" where
  "chain_of s =
     [Recover (logger s)] @ (if skipIfRunning s then [SkipIfStillRunning (logger s)] else [])"

definition cron_options :: "'a config_scheme \<Rightarrow> cron_option list" where
  "cron_options s =
     [CronWithLocation (location s), CronWithLogger (logger s)] @ [CronWithChain (chain_of s)]"

definition New :: "'c deps \<Rightarrow> sched_option list \<Rightarrow> 'c Scheduler" where
  "New L opts =
     (let s = fold apply_option opts default_config in
      \<lparr>logger = logger s, location = location s, skipIfRunning = skipIfRunning s,
       baseCtx = baseCtx s,
       cron = cron_New L (cron_options s), jobs = [], started = False,
       runCtx = None, runCancel = None, ctx_next = 0, ctx_done = {}, events = []\<rparr>)"

subsection \<open>Registration\<close>

definition scheduled_event :: "string \<Rightarrow> string \<Rightarrow> log_event" where
  "scheduled_event name sched =
     (LevelDebug, ''job scheduled'', [(''name'', AStr name), (''schedule'', AStr sched)])"

text \<open>
  The function handed to the cron library is the closure that calls \<open>fn\<close> with
  \<open>jobContext\<close> of the scheduler at the time it runs; it is named by \<open>fn\<close>.
\<close>

definition Every ::
  "'c deps \<Rightarrow> 'c Scheduler \<Rightarrow> string \<Rightarrow> duration \<Rightarrow> work \<Rightarrow> error option \<times> 'c Scheduler" where
  "Every L s name interval fn =
     (let sched = ''@every '' @ duration_String L interval in
      case cron_AddFunc L sched fn (cron s) of
        (Inl err, c) \<Rightarrow> (Some err, s\<lparr>cron := c\<rparr>)
      | (Inr entryID, c) \<Rightarrow>
          (None,
           s\<lparr>cron := c,
             jobs := AList.update name \<lparr>Name = name, Schedule = sched, EntryID = entryID\<rparr> (jobs s),
             events := events s @ [scheduled_event name sched]\<rparr>))"

definition Cron ::
  "'c deps \<Rightarrow> 'c Scheduler \<Rightarrow> string \<Rightarrow> string \<Rightarrow> work \<Rightarrow> error option \<times> 'c Scheduler" where
  "Cron L s name expr fn =
     (case cron_AddFunc L expr fn (cron s) of
        (Inl err, c) \<Rightarrow> (Some err, s\<lparr>cron := c\<rparr>)
      | (Inr entryID, c) \<Rightarrow>
          (None,
           s\<lparr>cron := c,
             jobs := AList.update name \<lparr>Name = name, Schedule = expr, EntryID = entryID\<rparr> (jobs s),
             events := events s @ [scheduled_event name expr]\<rparr>))"

definition Remove :: "'c deps \<Rightarrow> 'c Scheduler \<Rightarrow> string \<Rightarrow> bool \<times> 'c Scheduler" where
  "Remove L s name =
     (case map_of (jobs s) name of
        None \<Rightarrow> (False, s)
      | Some job \<Rightarrow>
          (True,
           s\<lparr>cron := cron_Remove L (EntryID job) (cron s),
             jobs := AList.delete name (jobs s),
             events := events s @ [(LevelDebug, ''job removed'', [(''name'', AStr name)])]\<rparr>))"

definition Jobs :: "'c Scheduler \<Rightarrow> Job list" where
  "Jobs s = map snd (jobs s)"

subsection \<open>Life cycle\<close>

definition baseContext :: "'a config_scheme \<Rightarrow> ctx" where
  "baseContext s = (case baseCtx s of Some c \<Rightarrow> c | None \<Rightarrow> Background)"

definition jobContext :: "'c Scheduler \<Rightarrow> ctx option" where
  "jobContext s =
     (let c = runCtx s;
          c = (if c = None then baseCtx s else c)
      in if c \<noteq> None then c else Some Background)"

definition Start :: "'c deps \<Rightarrow> 'c Scheduler \<Rightarrow> 'c Scheduler" where
  "Start L s =
     (if started s then s
      else
        (let c = WithCancel (ctx_next s) (baseContext s) in
         s\<lparr>runCtx := Some c, runCancel := Some c, ctx_next := Suc (ctx_next s),
           cron := cron_Start L (cron s),
           started := True,
           events := events s @
             [(LevelInfo, ''scheduler started'', [(''jobs'', ANum (length (jobs s)))])]\<rparr>))"

definition Stop :: "'c deps \<Rightarrow> 'c Scheduler \<Rightarrow> ctx \<times> 'c Scheduler" where
  "Stop L s =
     (if \<not> started s then
        (let c = WithCancel (ctx_next s) Background in
         (c, s\<lparr>ctx_next := Suc (ctx_next s), ctx_done := insert c (ctx_done s)\<rparr>))
      else
        (let cancel = runCancel s;
             s1 = s\<lparr>started := False, runCancel := None,
                    events := events s @ [(LevelInfo, ''scheduler stopping'', [])]\<rparr>;
             s2 = (case cancel of
                     None \<Rightarrow> s1
                   | Some c \<Rightarrow> s1\<lparr>ctx_done := insert c (ctx_done s1)\<rparr>);
             (token, k) = cron_Stop L (cron s2)
         in (token, s2\<lparr>cron := k\<rparr>)))"

definition Running :: "'c Scheduler \<Rightarrow> bool" where
  "Running s = started s"

subsection \<open>The schedulers that the package can produce\<close>

text \<open>
  A scheduler is made by \<open>New\<close> and changed by the exported methods; between two
  calls the cron library may change its own instance (its run loop fires and
  reschedules entries), which the last rule allows.
\<close>

inductive reachable :: "'c deps \<Rightarrow> 'c Scheduler \<Rightarrow> bool" for L :: "'c deps" where
  reach_New: "reachable L (New L opts)"
| reach_Every: "reachable L s \<Longrightarrow> reachable L (snd (Every L s name interval fn))"
| reach_Cron: "reachable L s \<Longrightarrow> reachable L (snd (Cron L s name expr fn))"
| reach_Remove: "reachable L s \<Longrightarrow> reachable L (snd (Remove L s name))"
| reach_Start: "reachable L s \<Longrightarrow> reachable L (Start L s)"
| reach_Stop: "reachable L s \<Longrightarrow> reachable L (snd (Stop L s))"
| reach_cron: "reachable L s \<Longrightarrow> reachable L (s\<lparr>cron := c\<rparr>)"

definition registry_ok :: "'c Scheduler \<Rightarrow> bool" where
  "registry_ok s \<longleftrightarrow>
     distinct (map fst (jobs s)) \<and> list_all (\<lambda>(k, j). Name j = k) (jobs s)"

definition lifecycle_ok :: "'c Scheduler \<Rightarrow> bool" where
  "lifecycle_ok s \<longleftrightarrow>
     baseCtx s \<noteq> None \<and>
     (started s \<longrightarrow>
        (\<exists>i. runCtx s = Some (WithCancel i (baseContext s))) \<and> runCancel s = runCtx s)"

subsection \<open>A cron table to run the operations on\<close>

text \<open>
  Concrete inputs need a concrete library. \<open>crontab_with accepts\<close> is a small cron
  table in the manner of robfig/cron: \<open>AddFunc\<close> refuses the specs that \<open>accepts\<close>
  refuses and otherwise appends an entry under the next identifier (the first one is
  1), \<open>Remove\<close> drops the entry with the identifier, \<open>Start\<close> and \<open>Stop\<close> switch the
  running flag, and \<open>Stop\<close> returns a context of the library's own. An entry carries
  the time of its next activation (\<open>entry_Next\<close>, zero until the run loop sets it);
  \<open>ctab_reschedule\<close> is the run loop assigning these times.
\<close>

record entry =
  entry_ID :: int
  entry_Spec :: string
  entry_Next :: int
  entry_Job :: work

record ctab =
  ctab_entries :: "entry list"
  ctab_next :: int
  ctab_running :: bool
  ctab_options :: "cron_option list"
  ctab_stops :: nat

definition ctab_New :: "cron_option list \<Rightarrow> ctab" where
  "ctab_New opts =
     \<lparr>ctab_entries = [], ctab_next = 0, ctab_running = False, ctab_options = opts,
      ctab_stops = 0\<rparr>"

definition ctab_AddFunc ::
  "(string \<Rightarrow> bool) \<Rightarrow> string \<Rightarrow> work \<Rightarrow> ctab \<Rightarrow> (error + int) \<times> ctab" where
  "ctab_AddFunc accepts spec cmd c =
     (if accepts spec then
        (Inr (ctab_next c + 1),
         c\<lparr>ctab_next := ctab_next c + 1,
           ctab_entries := ctab_entries c @
             [\<lparr>entry_ID = ctab_next c + 1, entry_Spec = spec, entry_Next = 0,
               entry_Job = cmd\<rparr>]\<rparr>)
      else (Inl (CronError spec), c))"

definition ctab_Remove :: "int \<Rightarrow> ctab \<Rightarrow> ctab" where
  "ctab_Remove i c = c\<lparr>ctab_entries := filter (\<lambda>e. entry_ID e \<noteq> i) (ctab_entries c)\<rparr>"

definition ctab_Start :: "ctab \<Rightarrow> ctab" where
  "ctab_Start c = c\<lparr>ctab_running := True\<rparr>"

definition ctab_Stop :: "ctab \<Rightarrow> ctx \<times> ctab" where
  "ctab_Stop c =
     (Foreign (ctab_stops c), c\<lparr>ctab_running := False, ctab_stops := Suc (ctab_stops c)\<rparr>)"

definition ctab_reschedule :: "(entry \<Rightarrow> int) \<Rightarrow> ctab \<Rightarrow> ctab" where
  "ctab_reschedule next_of c =
     c\<lparr>ctab_entries := map (\<lambda>e. e\<lparr>entry_Next := next_of e\<rparr>) (ctab_entries c)\<rparr>"

text \<open>
  \<open>time.Duration.String\<close> of the Go library: the digits are written from the right
  into a buffer, \<open>fmtFrac\<close> drops the trailing zeros of the fraction, and a duration
  under one second is printed in the unit ns, \<open>\<mu>s\<close> (two bytes) or ms.
\<close>

fun fmtDigits :: "nat \<Rightarrow> int \<Rightarrow> string \<Rightarrow> string" where
  "fmtDigits 0 v buf = buf"
| "fmtDigits (Suc n) v buf =
     (if v > 0 then fmtDigits n (v div 10) (char_of (48 + v mod 10) # buf) else buf)"

definition fmtInt :: "int \<Rightarrow> string \<Rightarrow> string" where
  "fmtInt v buf = (if v = 0 then CHR ''0'' # buf else fmtDigits 20 v buf)"

fun fmtFrac :: "nat \<Rightarrow> int \<Rightarrow> bool \<Rightarrow> string \<Rightarrow> string \<times> int" where
  "fmtFrac 0 v pr buf = ((if pr then CHR ''.'' # buf else buf), v)"
| "fmtFrac (Suc i) v pr buf =
     (let digit = v mod 10; pr' = (pr \<or> digit \<noteq> 0)
      in fmtFrac i (v div 10) pr' (if pr' then char_of (48 + digit) # buf else buf))"

definition go_duration_String :: "duration \<Rightarrow> string" where
  "go_duration_String d =
     (let neg = (d <s 0);
          u = (if neg then uint (- d) else uint d);
          body =
            (if u < 1000000000 then
               (if u = 0 then ''0s''
                else
                  (let (prec, unit) =
                         (if u < 1000 then (0, ''ns'')
                          else if u < 1000000 then (3, [CHR 0xC2, CHR 0xB5, CHR ''s''])
                          else (6, ''ms''));
                       (buf, v) = fmtFrac prec u False unit
                   in fmtInt v buf))
             else
               (let (buf, v) = fmtFrac 9 u False ''s'';
                    buf = fmtInt (v mod 60) buf;
                    v = v div 60
                in if v > 0 then
                     (let buf = fmtInt (v mod 60) (CHR ''m'' # buf);
                          v = v div 60
                      in if v > 0 then fmtInt v (CHR ''h'' # buf) else buf)
                   else buf))
      in if neg then CHR ''-'' # body else body)"

definition crontab_with :: "(string \<Rightarrow> bool) \<Rightarrow> ctab deps" where
  "crontab_with accepts =
     \<lparr>cron_New = ctab_New, cron_AddFunc = ctab_AddFunc accepts, cron_Remove = ctab_Remove,
      cron_Start = ctab_Start, cron_Stop = ctab_Stop,
      duration_String = go_duration_String\<rparr>"

text \<open>
  \<open>shape_ok\<close> looks at the shape of a spec only: a descriptor is one of the named ones
  or \<open>@every\<close> followed by something written in the alphabet of a duration, and
  anything else has five fields written in the alphabet of the cron fields. On the
  descriptors that \<open>Every\<close> builds it answers as robfig/cron does: the library reads
  the duration back with \<open>time.ParseDuration\<close> and raises a delay under one second to
  one second; it refuses none for its sign.
\<close>

fun fields :: "string \<Rightarrow> string \<Rightarrow> string list" where
  "fields cur [] = (if cur = [] then [] else [cur])"
| "fields cur (c # cs) =
     (if c = CHR '' '' then (if cur = [] then fields [] cs else cur # fields [] cs)
      else fields (cur @ [c]) cs)"

definition shape_ok :: "string \<Rightarrow> bool" where
  "shape_ok spec =
     (if take 1 spec = ''@'' then
        spec \<in> set [''@yearly'', ''@annually'', ''@monthly'', ''@weekly'', ''@daily'',
                     ''@midnight'', ''@hourly''] \<or>
        (take 7 spec = ''@every '' \<and> drop 7 spec \<noteq> [] \<and>
         list_all (\<lambda>c. c \<in> set (''0123456789.-+nsumh'' @ [CHR 0xC2, CHR 0xB5])) (drop 7 spec))
      else
        (let fs = fields [] spec
         in length fs = 5 \<and> list_all (list_all (\<lambda>c. c \<in> set ''0123456789*/,-?'')) fs))"

definition crontab :: "ctab deps" where
  "crontab = crontab_with shape_ok"

text \<open>A cron table that, unlike the library, refuses a delay of zero.\<close>

definition crontab_strict :: "ctab deps" where
  "crontab_strict = crontab_with (\<lambda>spec. shape_ok spec \<and> spec \<noteq> ''@every 0s'')"

text \<open>
  The scheduler of \<open>TestSchedulerJobs\<close>: three jobs, of one minute, one hour and a
  five-field expression.
\<close>

definition minute :: duration where
  "minute = 60000000000"

definition hour :: duration where
  "hour = 3600000000000"

definition sched0 :: "ctab Scheduler" where
  "sched0 = New crontab []"

definition sched1 :: "ctab Scheduler" where
  "sched1 = snd (Every crontab sched0 ''job1'' minute 1)"

definition sched2 :: "ctab Scheduler" where
  "sched2 = snd (Every crontab sched1 ''job2'' hour 2)"

definition sched3 :: "ctab Scheduler" where
  "sched3 = snd (Cron crontab sched2 ''job3'' ''0 0 * * *'' 3)"

text \<open>The first of them a minute later, when the run loop has set its next activation.\<close>

definition sched1_later :: "ctab Scheduler" where
  "sched1_later = sched1\<lparr>cron := ctab_reschedule (\<lambda>e. 60) (cron sched1)\<rparr>"

text \<open>
  The schedulers made from given options: as \<open>reachable\<close>, with the options of the
  call of \<open>New\<close> kept.
\<close>

inductive reachable_from :: "'c deps \<Rightarrow> sched_option list \<Rightarrow> 'c Scheduler \<Rightarrow> bool"
  for L :: "'c deps" and opts :: "sched_option list" where
  from_New: "reachable_from L opts (New L opts)"
| from_Every: "reachable_from L opts s \<Longrightarrow> reachable_from L opts (snd (Every L s name interval fn))"
| from_Cron: "reachable_from L opts s \<Longrightarrow> reachable_from L opts (snd (Cron L s name expr fn))"
| from_Remove: "reachable_from L opts s \<Longrightarrow> reachable_from L opts (snd (Remove L s name))"
| from_Start: "reachable_from L opts s \<Longrightarrow> reachable_from L opts (Start L s)"
| from_Stop: "reachable_from L opts s \<Longrightarrow> reachable_from L opts (snd (Stop L s))"
| from_cron: "reachable_from L opts s \<Longrightarrow> reachable_from L opts (s\<lparr>cron := c\<rparr>)"






section \<open>Properties\<close>

subsection \<open>Association lists\<close>

lemma list_all_update:
  "list_all P al \<Longrightarrow> P (k, v) \<Longrightarrow> list_all P (AList.update k v al)"
  by (induction al) auto

lemma list_all_delete: "list_all P al \<Longrightarrow> list_all P (AList.delete k al)"
  by (simp add: AList.delete_eq list_all_iff)

lemma one_entry_per_key:
  "distinct (map fst al) \<Longrightarrow> k \<in> fst ` set al \<Longrightarrow> length (filter (\<lambda>p. fst p = k) al) = 1"
proof (induction al)
  case Nil
  then show ?case by simp
next
  case (Cons p al)
  show ?case
  proof (cases "fst p = k")
    case True
    with Cons.prems have "k \<notin> fst ` set al" by auto
    then have "filter (\<lambda>p. fst p = k) al = []"
      by (auto simp: filter_empty_conv)
    with True show ?thesis by simp
  next
    case False
    with Cons show ?thesis by auto
  qed
qed

lemma filter_Name_Jobs:
  assumes "list_all (\<lambda>(k, j). Name j = k) al"
  shows "filter (\<lambda>j. Name j = name) (map snd al) = map snd (filter (\<lambda>p. fst p = name) al)"
  using assms by (induction al) auto

lemma one_job_per_name:
  assumes "registry_ok s" and "name \<in> fst ` set (jobs s)"
  shows "length (filter (\<lambda>j. Name j = name) (Jobs s)) = 1"
  using assms
  by (simp add: registry_ok_def Jobs_def filter_Name_Jobs one_entry_per_key)

subsection \<open>Invariants\<close>

lemma registry_ok_New: "registry_ok (New L opts)"
  by (simp add: registry_ok_def New_def Let_def)

lemma registry_ok_put:
  assumes "registry_ok s" and "Name j = name"
  shows "registry_ok (s\<lparr>cron := c, jobs := AList.update name j (jobs s), events := ev\<rparr>)"
  using assms by (simp add: registry_ok_def distinct_update list_all_update)

lemma registry_ok_cron: "registry_ok (s\<lparr>cron := c\<rparr>) = registry_ok s"
  by (simp add: registry_ok_def)

lemma registry_ok_Every: "registry_ok s \<Longrightarrow> registry_ok (snd (Every L s name interval fn))"
  by (auto simp: Every_def Let_def registry_ok_cron registry_ok_put split: prod.splits sum.splits)

lemma registry_ok_Cron: "registry_ok s \<Longrightarrow> registry_ok (snd (Cron L s name expr fn))"
  by (auto simp: Cron_def registry_ok_cron registry_ok_put split: prod.splits sum.splits)

lemma registry_ok_Remove: "registry_ok s \<Longrightarrow> registry_ok (snd (Remove L s name))"
  by (auto simp: Remove_def registry_ok_def distinct_delete list_all_delete split: option.splits)

lemma registry_ok_Start: "registry_ok s \<Longrightarrow> registry_ok (Start L s)"
  by (simp add: Start_def registry_ok_def Let_def)

lemma registry_ok_Stop: "registry_ok s \<Longrightarrow> registry_ok (snd (Stop L s))"
  by (auto simp: Stop_def registry_ok_def Let_def split: prod.splits option.splits)

lemma reachable_registry_ok: "reachable L s \<Longrightarrow> registry_ok s"
proof (induction rule: reachable.induct)
  case (reach_New opts)
  show ?case by (rule registry_ok_New)
next
  case (reach_Every s name interval fn)
  then show ?case by (simp add: registry_ok_Every)
next
  case (reach_Cron s name expr fn)
  then show ?case by (simp add: registry_ok_Cron)
next
  case (reach_Remove s name)
  then show ?case by (simp add: registry_ok_Remove)
next
  case (reach_Start s)
  then show ?case by (simp add: registry_ok_Start)
next
  case (reach_Stop s)
  then show ?case by (simp add: registry_ok_Stop)
next
  case (reach_cron s c)
  then show ?case by (simp add: registry_ok_cron)
qed

lemma apply_option_baseCtx: "baseCtx s \<noteq> None \<Longrightarrow> baseCtx (apply_option opt s) \<noteq> None"
  by (cases opt) auto

lemma fold_apply_option_baseCtx:
  "baseCtx s \<noteq> None \<Longrightarrow> baseCtx (fold apply_option opts s) \<noteq> None"
proof (induction opts arbitrary: s)
  case Nil
  then show ?case by simp
next
  case (Cons a opts)
  from Cons.prems have "baseCtx (apply_option a s) \<noteq> None"
    by (rule apply_option_baseCtx)
  then have "baseCtx (fold apply_option opts (apply_option a s)) \<noteq> None"
    by (rule Cons.IH)
  then show ?case by simp
qed

lemma lifecycle_ok_New: "lifecycle_ok (New L opts)"
  using fold_apply_option_baseCtx [of default_config opts]
  by (simp add: lifecycle_ok_def New_def Let_def default_config_def)

lemma lifecycle_ok_Every: "lifecycle_ok s \<Longrightarrow> lifecycle_ok (snd (Every L s name interval fn))"
  by (auto simp: Every_def Let_def lifecycle_ok_def baseContext_def split: prod.splits sum.splits)

lemma lifecycle_ok_Cron: "lifecycle_ok s \<Longrightarrow> lifecycle_ok (snd (Cron L s name expr fn))"
  by (auto simp: Cron_def lifecycle_ok_def baseContext_def split: prod.splits sum.splits)

lemma lifecycle_ok_Remove: "lifecycle_ok s \<Longrightarrow> lifecycle_ok (snd (Remove L s name))"
  by (auto simp: Remove_def lifecycle_ok_def baseContext_def split: option.splits)

lemma lifecycle_ok_Start: "lifecycle_ok s \<Longrightarrow> lifecycle_ok (Start L s)"
  by (auto simp: Start_def lifecycle_ok_def baseContext_def Let_def)

lemma lifecycle_ok_Stop: "lifecycle_ok s \<Longrightarrow> lifecycle_ok (snd (Stop L s))"
  by (auto simp: Stop_def lifecycle_ok_def baseContext_def Let_def split: prod.splits option.splits)

lemma lifecycle_ok_cron: "lifecycle_ok (s\<lparr>cron := c\<rparr>) = lifecycle_ok s"
  by (simp add: lifecycle_ok_def baseContext_def)

lemma reachable_lifecycle_ok: "reachable L s \<Longrightarrow> lifecycle_ok s"
  by (induction rule: reachable.induct)
    (simp_all add: lifecycle_ok_New lifecycle_ok_Every lifecycle_ok_Cron lifecycle_ok_Remove
      lifecycle_ok_Start lifecycle_ok_Stop lifecycle_ok_cron)


subsection \<open>Evaluation on the cron table\<close>

lemma duration_String_zero: "go_duration_String 0 = ''0s''"
  by (simp add: go_duration_String_def word_sless_alt)

lemma duration_String_minute: "go_duration_String minute = ''1m0s''"
  apply (simp add: go_duration_String_def minute_def word_sless_alt)
  apply code_simp
  done

lemma duration_String_hour: "go_duration_String hour = ''1h0m0s''"
  apply (simp add: go_duration_String_def hour_def word_sless_alt)
  apply code_simp
  done

lemma duration_String_minus_5s: "go_duration_String (- 5000000000) = ''-5s''"
  apply (simp add: go_duration_String_def word_sless_alt)
  apply code_simp
  done

lemma shape_ok_every_zero: "shape_ok ''@every 0s''"
  by (simp add: shape_ok_def)

lemma shape_ok_every_minus_5s: "shape_ok ''@every -5s''"
  by (simp add: shape_ok_def)

lemma shape_ok_every_minute: "shape_ok ''@every 1m0s''"
  by (simp add: shape_ok_def)

lemma shape_ok_every_hour: "shape_ok ''@every 1h0m0s''"
  by (simp add: shape_ok_def)

lemma shape_ok_midnight: "shape_ok ''0 0 * * *''"
  by (simp add: shape_ok_def)

lemma shape_ok_invalid: "\<not> shape_ok ''invalid expression''"
  by (simp add: shape_ok_def)

lemmas crontab_defs =
  crontab_def crontab_with_def ctab_New_def ctab_AddFunc_def ctab_Remove_def
  ctab_Start_def ctab_Stop_def

lemma sched0_eval:
  "sched0 =
     \<lparr>logger = 0, location = 0, skipIfRunning = False, baseCtx = Some Background,
      cron = \<lparr>ctab_entries = [], ctab_next = 0, ctab_running = False,
              ctab_options = [CronWithLocation 0, CronWithLogger 0, CronWithChain [Recover 0]],
              ctab_stops = 0\<rparr>,
      jobs = [], started = False, runCtx = None, runCancel = None, ctx_next = 0,
      ctx_done = {}, events = []\<rparr>"
  by (simp add: sched0_def New_def crontab_defs default_config_def
      cron_options_def chain_of_def slog_Default_def time_UTC_def)

lemma sched1_eval:
  "sched1 =
     \<lparr>logger = 0, location = 0, skipIfRunning = False, baseCtx = Some Background,
      cron = \<lparr>ctab_entries =
                [\<lparr>entry_ID = 1, entry_Spec = ''@every 1m0s'', entry_Next = 0, entry_Job = 1\<rparr>],
              ctab_next = 1, ctab_running = False,
              ctab_options = [CronWithLocation 0, CronWithLogger 0, CronWithChain [Recover 0]],
              ctab_stops = 0\<rparr>,
      jobs = [(''job1'', \<lparr>Name = ''job1'', Schedule = ''@every 1m0s'', EntryID = 1\<rparr>)],
      started = False, runCtx = None, runCancel = None, ctx_next = 0, ctx_done = {},
      events = [scheduled_event ''job1'' ''@every 1m0s'']\<rparr>"
  by (simp add: sched1_def sched0_eval Every_def Let_def crontab_defs
      duration_String_minute shape_ok_every_minute)

lemma reachable_sched0: "reachable crontab sched0"
  unfolding sched0_def by (rule reach_New)

lemma reachable_sched1: "reachable crontab sched1"
  unfolding sched1_def by (rule reach_Every [OF reachable_sched0])

lemma Every_cases:
  obtains (refused) e c where
      "cron_AddFunc L (''@every '' @ duration_String L interval) fn (cron s) = (Inl e, c)"
      "Every L s name interval fn = (Some e, s\<lparr>cron := c\<rparr>)"
    | (accepted) i c where
      "cron_AddFunc L (''@every '' @ duration_String L interval) fn (cron s) = (Inr i, c)"
      "Every L s name interval fn =
         (None,
          s\<lparr>cron := c,
            jobs := AList.update name
              \<lparr>Name = name, Schedule = ''@every '' @ duration_String L interval, EntryID = i\<rparr>
              (jobs s),
            events := events s @
              [scheduled_event name (''@every '' @ duration_String L interval)]\<rparr>)"
proof (cases "cron_AddFunc L (''@every '' @ duration_String L interval) fn (cron s)")
  case (Pair r c)
  show ?thesis
  proof (cases r)
    case (Inl e)
    with Pair show ?thesis by (intro refused [of e c]) (simp_all add: Every_def Let_def)
  next
    case (Inr i)
    with Pair show ?thesis by (intro accepted [of i c]) (simp_all add: Every_def Let_def)
  qed
qed

lemma Cron_cases:
  obtains (refused) e c where
      "cron_AddFunc L expr fn (cron s) = (Inl e, c)"
      "Cron L s name expr fn = (Some e, s\<lparr>cron := c\<rparr>)"
    | (accepted) i c where
      "cron_AddFunc L expr fn (cron s) = (Inr i, c)"
      "Cron L s name expr fn =
         (None,
          s\<lparr>cron := c,
            jobs := AList.update name \<lparr>Name = name, Schedule = expr, EntryID = i\<rparr> (jobs s),
            events := events s @ [scheduled_event name expr]\<rparr>)"
proof (cases "cron_AddFunc L expr fn (cron s)")
  case (Pair r c)
  show ?thesis
  proof (cases r)
    case (Inl e)
    with Pair show ?thesis by (intro refused [of e c]) (simp_all add: Cron_def)
  next
    case (Inr i)
    with Pair show ?thesis by (intro accepted [of i c]) (simp_all add: Cron_def)
  qed
qed

lemma Every_keeps_names: "fst ` set (jobs s) \<subseteq> fst ` set (jobs (snd (Every L s name interval fn)))"
  by (cases rule: Every_cases [of L interval fn s name]) (auto simp: dom_update)

lemma Cron_keeps_names: "fst ` set (jobs s) \<subseteq> fst ` set (jobs (snd (Cron L s name expr fn)))"
  by (cases rule: Cron_cases [of L expr fn s name]) (auto simp: dom_update)

subsection \<open>Registering under a name that is taken\<close>

text \<open>
  Claim C1, as amended. \<open>Every\<close> and \<open>Cron\<close> do not look the name up before they
  register: when the name is already in the registry and the cron library accepts the
  schedule, the call returns no error and the registry's entry under that name is
  replaced by the new schedule and entry identifier; when the library refuses the
  schedule, the call returns the library's error and the registry is as before. In
  both cases the job list has exactly one entry with that name.
\<close>

theorem same_name_replaces_entry:
  assumes "reachable L s" and "name \<in> fst ` set (jobs s)"
  shows
    "length (filter (\<lambda>j. Name j = name) (Jobs (snd (Every L s name interval fn)))) = 1 \<and>
     length (filter (\<lambda>j. Name j = name) (Jobs (snd (Cron L s name expr fn)))) = 1 \<and>
     (\<forall>i c. cron_AddFunc L (''@every '' @ duration_String L interval) fn (cron s) = (Inr i, c) \<longrightarrow>
        fst (Every L s name interval fn) = None \<and>
        map_of (jobs (snd (Every L s name interval fn))) name =
          Some \<lparr>Name = name, Schedule = ''@every '' @ duration_String L interval, EntryID = i\<rparr>) \<and>
     (\<forall>i c. cron_AddFunc L expr fn (cron s) = (Inr i, c) \<longrightarrow>
        fst (Cron L s name expr fn) = None \<and>
        map_of (jobs (snd (Cron L s name expr fn))) name =
          Some \<lparr>Name = name, Schedule = expr, EntryID = i\<rparr>) \<and>
     (\<forall>e c. cron_AddFunc L (''@every '' @ duration_String L interval) fn (cron s) = (Inl e, c) \<longrightarrow>
        fst (Every L s name interval fn) = Some e \<and>
        jobs (snd (Every L s name interval fn)) = jobs s) \<and>
     (\<forall>e c. cron_AddFunc L expr fn (cron s) = (Inl e, c) \<longrightarrow>
        fst (Cron L s name expr fn) = Some e \<and> jobs (snd (Cron L s name expr fn)) = jobs s)"
proof -
  have "registry_ok (snd (Every L s name interval fn))"
    using assms(1) by (intro reachable_registry_ok [of L] reach_Every)
  moreover have "name \<in> fst ` set (jobs (snd (Every L s name interval fn)))"
    using assms(2) Every_keeps_names [of s L name interval fn] by blast
  ultimately have every: "length (filter (\<lambda>j. Name j = name) (Jobs (snd (Every L s name interval fn)))) = 1"
    by (rule one_job_per_name)
  have "registry_ok (snd (Cron L s name expr fn))"
    using assms(1) by (intro reachable_registry_ok [of L] reach_Cron)
  moreover have "name \<in> fst ` set (jobs (snd (Cron L s name expr fn)))"
    using assms(2) Cron_keeps_names [of s L name expr fn] by blast
  ultimately have cron: "length (filter (\<lambda>j. Name j = name) (Jobs (snd (Cron L s name expr fn)))) = 1"
    by (rule one_job_per_name)
  have every_ok: "\<forall>i c. cron_AddFunc L (''@every '' @ duration_String L interval) fn (cron s) = (Inr i, c) \<longrightarrow>
        fst (Every L s name interval fn) = None \<and>
        map_of (jobs (snd (Every L s name interval fn))) name =
          Some \<lparr>Name = name, Schedule = ''@every '' @ duration_String L interval, EntryID = i\<rparr>"
    by (simp add: Every_def Let_def update_conv')
  have cron_ok: "\<forall>i c. cron_AddFunc L expr fn (cron s) = (Inr i, c) \<longrightarrow>
        fst (Cron L s name expr fn) = None \<and>
        map_of (jobs (snd (Cron L s name expr fn))) name =
          Some \<lparr>Name = name, Schedule = expr, EntryID = i\<rparr>"
    by (simp add: Cron_def update_conv')
  have every_err: "\<forall>e c. cron_AddFunc L (''@every '' @ duration_String L interval) fn (cron s) = (Inl e, c) \<longrightarrow>
        fst (Every L s name interval fn) = Some e \<and>
        jobs (snd (Every L s name interval fn)) = jobs s"
    by (simp add: Every_def Let_def)
  have cron_err: "\<forall>e c. cron_AddFunc L expr fn (cron s) = (Inl e, c) \<longrightarrow>
        fst (Cron L s name expr fn) = Some e \<and> jobs (snd (Cron L s name expr fn)) = jobs s"
    by (simp add: Cron_def)
  from every cron every_ok cron_ok every_err cron_err show ?thesis by blast
qed

lemma Every_sched1_again:
  "Every crontab sched1 ''job1'' hour 2 =
     (None,
      sched1\<lparr>cron := \<lparr>ctab_entries =
                [\<lparr>entry_ID = 1, entry_Spec = ''@every 1m0s'', entry_Next = 0, entry_Job = 1\<rparr>,
                 \<lparr>entry_ID = 2, entry_Spec = ''@every 1h0m0s'', entry_Next = 0, entry_Job = 2\<rparr>],
              ctab_next = 2, ctab_running = False,
              ctab_options = [CronWithLocation 0, CronWithLogger 0, CronWithChain [Recover 0]],
              ctab_stops = 0\<rparr>,
        jobs := [(''job1'', \<lparr>Name = ''job1'', Schedule = ''@every 1h0m0s'', EntryID = 2\<rparr>)],
        events := [scheduled_event ''job1'' ''@every 1m0s'',
                   scheduled_event ''job1'' ''@every 1h0m0s'']\<rparr>)"
  by (simp add: sched1_eval Every_def Let_def crontab_defs duration_String_hour
      shape_ok_every_hour)

lemma Cron_sched1_again:
  "Cron crontab sched1 ''job1'' ''0 0 * * *'' 2 =
     (None,
      sched1\<lparr>cron := \<lparr>ctab_entries =
                [\<lparr>entry_ID = 1, entry_Spec = ''@every 1m0s'', entry_Next = 0, entry_Job = 1\<rparr>,
                 \<lparr>entry_ID = 2, entry_Spec = ''0 0 * * *'', entry_Next = 0, entry_Job = 2\<rparr>],
              ctab_next = 2, ctab_running = False,
              ctab_options = [CronWithLocation 0, CronWithLogger 0, CronWithChain [Recover 0]],
              ctab_stops = 0\<rparr>,
        jobs := [(''job1'', \<lparr>Name = ''job1'', Schedule = ''0 0 * * *'', EntryID = 2\<rparr>)],
        events := [scheduled_event ''job1'' ''@every 1m0s'',
                   scheduled_event ''job1'' ''0 0 * * *'']\<rparr>)"
  by (simp add: sched1_eval Cron_def crontab_defs shape_ok_midnight)

text \<open>
  On the cron table: \<open>job1\<close> is registered every minute, then again every hour and
  as a five-field expression.
\<close>

theorem same_name_replaces_entry_witness:
  "reachable crontab sched1 \<and> ''job1'' \<in> fst ` set (jobs sched1) \<and>
   length (filter (\<lambda>j. Name j = ''job1'') (Jobs (snd (Every crontab sched1 ''job1'' hour 2)))) = 1 \<and>
   length (filter (\<lambda>j. Name j = ''job1'')
     (Jobs (snd (Cron crontab sched1 ''job1'' ''0 0 * * *'' 2)))) = 1 \<and>
   map_of (jobs (snd (Every crontab sched1 ''job1'' hour 2))) ''job1'' =
     Some \<lparr>Name = ''job1'', Schedule = ''@every 1h0m0s'', EntryID = 2\<rparr>"
proof -
  have in_reg: "''job1'' \<in> fst ` set (jobs sched1)"
    by (simp add: sched1_eval)
  have "map_of (jobs (snd (Every crontab sched1 ''job1'' hour 2))) ''job1'' =
     Some \<lparr>Name = ''job1'', Schedule = ''@every 1h0m0s'', EntryID = 2\<rparr>"
    by (simp add: Every_sched1_again)
  with same_name_replaces_entry [OF reachable_sched1 in_reg, of hour 2 "''0 0 * * *''"]
    reachable_sched1 in_reg
  show ?thesis by blast
qed

text \<open>
  Claim C1 as stated asks the second call to fail. It returns no error, from \<open>Every\<close>
  and from \<open>Cron\<close>.
\<close>

theorem second_registration_counterexample:
  "reachable crontab sched1 \<and> ''job1'' \<in> fst ` set (jobs sched1) \<and>
   fst (Every crontab sched1 ''job1'' hour 2) = None \<and>
   fst (Cron crontab sched1 ''job1'' ''0 0 * * *'' 2) = None"
  using reachable_sched1
  by (simp add: Every_sched1_again Cron_sched1_again) (simp add: sched1_eval)

text \<open>
  The same for the schedulers with two and three jobs, and for the first calls of the
  life cycle.
\<close>

lemma sched2_eval:
  "sched2 =
     \<lparr>logger = 0, location = 0, skipIfRunning = False, baseCtx = Some Background,
      cron = \<lparr>ctab_entries =
                [\<lparr>entry_ID = 1, entry_Spec = ''@every 1m0s'', entry_Next = 0, entry_Job = 1\<rparr>,
                 \<lparr>entry_ID = 2, entry_Spec = ''@every 1h0m0s'', entry_Next = 0, entry_Job = 2\<rparr>],
              ctab_next = 2, ctab_running = False,
              ctab_options = [CronWithLocation 0, CronWithLogger 0, CronWithChain [Recover 0]],
              ctab_stops = 0\<rparr>,
      jobs = [(''job1'', \<lparr>Name = ''job1'', Schedule = ''@every 1m0s'', EntryID = 1\<rparr>),
              (''job2'', \<lparr>Name = ''job2'', Schedule = ''@every 1h0m0s'', EntryID = 2\<rparr>)],
      started = False, runCtx = None, runCancel = None, ctx_next = 0, ctx_done = {},
      events = [scheduled_event ''job1'' ''@every 1m0s'',
                scheduled_event ''job2'' ''@every 1h0m0s'']\<rparr>"
  by (simp add: sched2_def sched1_eval Every_def Let_def crontab_defs
      duration_String_hour shape_ok_every_hour)

lemma sched3_eval:
  "sched3 =
     \<lparr>logger = 0, location = 0, skipIfRunning = False, baseCtx = Some Background,
      cron = \<lparr>ctab_entries =
                [\<lparr>entry_ID = 1, entry_Spec = ''@every 1m0s'', entry_Next = 0, entry_Job = 1\<rparr>,
                 \<lparr>entry_ID = 2, entry_Spec = ''@every 1h0m0s'', entry_Next = 0, entry_Job = 2\<rparr>,
                 \<lparr>entry_ID = 3, entry_Spec = ''0 0 * * *'', entry_Next = 0, entry_Job = 3\<rparr>],
              ctab_next = 3, ctab_running = False,
              ctab_options = [CronWithLocation 0, CronWithLogger 0, CronWithChain [Recover 0]],
              ctab_stops = 0\<rparr>,
      jobs = [(''job1'', \<lparr>Name = ''job1'', Schedule = ''@every 1m0s'', EntryID = 1\<rparr>),
              (''job2'', \<lparr>Name = ''job2'', Schedule = ''@every 1h0m0s'', EntryID = 2\<rparr>),
              (''job3'', \<lparr>Name = ''job3'', Schedule = ''0 0 * * *'', EntryID = 3\<rparr>)],
      started = False, runCtx = None, runCancel = None, ctx_next = 0, ctx_done = {},
      events = [scheduled_event ''job1'' ''@every 1m0s'',
                scheduled_event ''job2'' ''@every 1h0m0s'',
                scheduled_event ''job3'' ''0 0 * * *'']\<rparr>"
  by (simp add: sched3_def sched2_eval Cron_def crontab_defs shape_ok_midnight)

lemma reachable_sched3: "reachable crontab sched3"
  unfolding sched3_def sched2_def
  by (intro reach_Cron reach_Every reachable_sched1)

lemma Stop_stopped:
  assumes "\<not> started s"
  shows "Stop L s =
    (WithCancel (ctx_next s) Background,
     s\<lparr>ctx_next := Suc (ctx_next s),
       ctx_done := insert (WithCancel (ctx_next s) Background) (ctx_done s)\<rparr>)"
  using assms by (simp add: Stop_def Let_def)

lemma Stop_sched0:
  "Stop crontab sched0 =
     (WithCancel 0 Background, sched0\<lparr>ctx_next := 1, ctx_done := {WithCancel 0 Background}\<rparr>)"
  by (simp add: Stop_stopped sched0_eval)


lemma Stop_not_started: "\<not> started (snd (Stop L s))"
  by (simp add: Stop_def Let_def split: prod.splits option.splits)

subsection \<open>An interval that is not positive\<close>

lemma Every_strict_zero:
  "Every crontab_strict sched0 ''job'' 0 4 = (Some (CronError ''@every 0s''), sched0)"
  by (simp add: sched0_eval Every_def Let_def crontab_strict_def crontab_defs
      duration_String_zero)

lemma Every_zero:
  "Every crontab sched0 ''job'' 0 4 =
     (None,
      sched0\<lparr>cron := \<lparr>ctab_entries =
                [\<lparr>entry_ID = 1, entry_Spec = ''@every 0s'', entry_Next = 0, entry_Job = 4\<rparr>],
              ctab_next = 1, ctab_running = False,
              ctab_options = [CronWithLocation 0, CronWithLogger 0, CronWithChain [Recover 0]],
              ctab_stops = 0\<rparr>,
        jobs := [(''job'', \<lparr>Name = ''job'', Schedule = ''@every 0s'', EntryID = 1\<rparr>)],
        events := [scheduled_event ''job'' ''@every 0s'']\<rparr>)"
  by (simp add: sched0_eval Every_def Let_def crontab_defs duration_String_zero
      shape_ok_every_zero)

lemma Every_minus_5s:
  "Every crontab sched0 ''job'' (- 5000000000) 4 =
     (None,
      sched0\<lparr>cron := \<lparr>ctab_entries =
                [\<lparr>entry_ID = 1, entry_Spec = ''@every -5s'', entry_Next = 0, entry_Job = 4\<rparr>],
              ctab_next = 1, ctab_running = False,
              ctab_options = [CronWithLocation 0, CronWithLogger 0, CronWithChain [Recover 0]],
              ctab_stops = 0\<rparr>,
        jobs := [(''job'', \<lparr>Name = ''job'', Schedule = ''@every -5s'', EntryID = 1\<rparr>)],
        events := [scheduled_event ''job'' ''@every -5s'']\<rparr>)"
  by (simp add: sched0_eval Every_def Let_def crontab_defs duration_String_minus_5s
      shape_ok_every_minus_5s)

text \<open>
  Claim C2, as amended. \<open>Every\<close> does not test the sign of its interval. It returns
  an error exactly when the cron library refuses the descriptor \<open>@every\<close> followed by
  the interval as \<open>time.Duration.String\<close> prints it, and the error is the library's;
  whenever it returns an error the registry is as before, so the job list has the
  length it had.
\<close>

theorem Every_fails_only_with_library:
  "fst (Every L s name interval fn) =
     (case fst (cron_AddFunc L (''@every '' @ duration_String L interval) fn (cron s)) of
        Inl e \<Rightarrow> Some e
      | Inr i \<Rightarrow> None) \<and>
   (fst (Every L s name interval fn) \<noteq> None \<longrightarrow>
      jobs (snd (Every L s name interval fn)) = jobs s \<and>
      length (Jobs (snd (Every L s name interval fn))) = length (Jobs s))"
  by (cases rule: Every_cases [of L interval fn s name]) (simp_all add: Jobs_def)

text \<open>
  On a cron table that refuses a delay of zero, \<open>Every\<close> with the interval 0 fails
  and registers nothing.
\<close>

theorem Every_fails_only_with_library_witness:
  "fst (Every crontab_strict sched0 ''job'' 0 4) \<noteq> None \<and>
   fst (Every crontab_strict sched0 ''job'' 0 4) = Some (CronError ''@every 0s'') \<and>
   jobs (snd (Every crontab_strict sched0 ''job'' 0 4)) = jobs sched0 \<and>
   length (Jobs (snd (Every crontab_strict sched0 ''job'' 0 4))) = length (Jobs sched0)"
proof -
  have failed: "fst (Every crontab_strict sched0 ''job'' 0 4) \<noteq> None"
    by (simp add: Every_strict_zero)
  have "fst (Every crontab_strict sched0 ''job'' 0 4) = Some (CronError ''@every 0s'')"
    by (simp add: Every_strict_zero)
  with failed Every_fails_only_with_library [of crontab_strict sched0 "''job''" 0 4]
  show ?thesis by blast
qed

text \<open>
  Claim C2 as stated asks every interval \<open>d \<le> 0\<close> to be refused. On the cron table,
  which accepts a descriptor of any sign as the library does, the intervals 0 and
  \<open>-5s\<close> are registered: no error, and the job list grows.
\<close>

theorem nonpositive_interval_counterexample:
  "sint (0 :: duration) \<le> 0 \<and>
   fst (Every crontab sched0 ''job'' 0 4) = None \<and>
   length (Jobs (snd (Every crontab sched0 ''job'' 0 4))) \<noteq> length (Jobs sched0) \<and>
   sint (- 5000000000 :: duration) \<le> 0 \<and>
   fst (Every crontab sched0 ''job'' (- 5000000000) 4) = None \<and>
   length (Jobs (snd (Every crontab sched0 ''job'' (- 5000000000) 4))) \<noteq> length (Jobs sched0)"
  by (simp add: Every_zero Every_minus_5s Jobs_def) (simp add: sched0_eval)

subsection \<open>What the job list holds\<close>

text \<open>
  Claim C3, as amended. Each element of the list that \<open>Jobs\<close> returns is the value
  the registry holds under the element's own name: the name, the schedule as it was
  given to the cron library (the expression for \<open>Cron\<close>, the \<open>@every\<close> descriptor for
  \<open>Every\<close>) and the identifier of the cron entry. It has no next fire time: the list
  is the same whatever the state of the cron instance.
\<close>

theorem Jobs_elements:
  "(reachable L s \<longrightarrow> (\<forall>j \<in> set (Jobs s). map_of (jobs s) (Name j) = Some j)) \<and>
   (\<forall>i c. cron_AddFunc L expr fn (cron s) = (Inr i, c) \<longrightarrow>
      \<lparr>Name = name, Schedule = expr, EntryID = i\<rparr> \<in> set (Jobs (snd (Cron L s name expr fn)))) \<and>
   (\<forall>i c. cron_AddFunc L (''@every '' @ duration_String L interval) fn (cron s) = (Inr i, c) \<longrightarrow>
      \<lparr>Name = name, Schedule = ''@every '' @ duration_String L interval, EntryID = i\<rparr>
        \<in> set (Jobs (snd (Every L s name interval fn)))) \<and>
   Jobs (s\<lparr>cron := k\<rparr>) = Jobs s"
proof -
  have a: "\<forall>j \<in> set (Jobs s). map_of (jobs s) (Name j) = Some j" if "reachable L s"
  proof
    fix j
    assume "j \<in> set (Jobs s)"
    then obtain n where in_jobs: "(n, j) \<in> set (jobs s)"
      by (auto simp: Jobs_def)
    from that have ok: "registry_ok s"
      by (rule reachable_registry_ok)
    with in_jobs have "Name j = n"
      by (auto simp: registry_ok_def list_all_iff)
    moreover from ok in_jobs have "map_of (jobs s) n = Some j"
      by (simp add: registry_ok_def)
    ultimately show "map_of (jobs s) (Name j) = Some j" by simp
  qed
  have in_update: "v \<in> snd ` set (AList.update n v al)" for n :: string and v :: Job and al
    by (induction al) auto
  have b: "\<forall>i c. cron_AddFunc L expr fn (cron s) = (Inr i, c) \<longrightarrow>
      \<lparr>Name = name, Schedule = expr, EntryID = i\<rparr> \<in> set (Jobs (snd (Cron L s name expr fn)))"
    by (simp add: Cron_def Jobs_def in_update)
  have c: "\<forall>i c. cron_AddFunc L (''@every '' @ duration_String L interval) fn (cron s) = (Inr i, c) \<longrightarrow>
      \<lparr>Name = name, Schedule = ''@every '' @ duration_String L interval, EntryID = i\<rparr>
        \<in> set (Jobs (snd (Every L s name interval fn)))"
    by (simp add: Every_def Let_def Jobs_def in_update)
  have d: "Jobs (s\<lparr>cron := k\<rparr>) = Jobs s"
    by (simp add: Jobs_def)
  from a b c d show ?thesis by blast
qed

theorem Jobs_elements_witness:
  "reachable crontab sched1 \<and>
   Jobs sched1 = [\<lparr>Name = ''job1'', Schedule = ''@every 1m0s'', EntryID = 1\<rparr>] \<and>
   map_of (jobs sched1) ''job1'' =
     Some \<lparr>Name = ''job1'', Schedule = ''@every 1m0s'', EntryID = 1\<rparr> \<and>
   cron_AddFunc crontab (''@every '' @ duration_String crontab minute) 1 (cron sched0) =
     (Inr 1, cron sched1) \<and>
   \<lparr>Name = ''job1'', Schedule = ''@every '' @ duration_String crontab minute, EntryID = 1\<rparr>
     \<in> set (Jobs (snd (Every crontab sched0 ''job1'' minute 1)))"
proof -
  have add: "cron_AddFunc crontab (''@every '' @ duration_String crontab minute) 1 (cron sched0) =
     (Inr 1, cron sched1)"
    by (simp add: sched0_eval sched1_eval crontab_defs duration_String_minute
        shape_ok_every_minute)
  have list: "Jobs sched1 = [\<lparr>Name = ''job1'', Schedule = ''@every 1m0s'', EntryID = 1\<rparr>]"
    by (simp add: sched1_eval Jobs_def)
  from Jobs_elements [of crontab sched1 "''0 0 * * *''" 1 "''job1''" minute "cron sched1"]
    reachable_sched1
  have "\<forall>j \<in> set (Jobs sched1). map_of (jobs sched1) (Name j) = Some j"
    by blast
  with list have "map_of (jobs sched1) ''job1'' =
     Some \<lparr>Name = ''job1'', Schedule = ''@every 1m0s'', EntryID = 1\<rparr>"
    by simp
  moreover
  from Jobs_elements [of crontab sched0 "''0 0 * * *''" 1 "''job1''" minute "cron sched0"] add
  have "\<lparr>Name = ''job1'', Schedule = ''@every '' @ duration_String crontab minute, EntryID = 1\<rparr>
     \<in> set (Jobs (snd (Every crontab sched0 ''job1'' minute 1)))"
    by blast
  ultimately show ?thesis
    using reachable_sched1 add list by blast
qed

text \<open>
  Claim C3 as stated asks each summary to carry the next fire time. A minute later
  the entry's next activation has changed in the cron table and the job list has not.
\<close>

theorem next_fire_time_counterexample:
  "reachable crontab sched1 \<and> reachable crontab sched1_later \<and>
   Jobs sched1_later = Jobs sched1 \<and>
   map entry_Next (ctab_entries (cron sched1_later)) = [60] \<and>
   map entry_Next (ctab_entries (cron sched1)) = [0]"
proof -
  have "reachable crontab sched1_later"
    unfolding sched1_later_def by (rule reach_cron [OF reachable_sched1])
  moreover have "Jobs sched1_later = Jobs sched1"
    by (simp add: sched1_later_def Jobs_def)
  moreover have "map entry_Next (ctab_entries (cron sched1_later)) = [60]"
    by (simp add: sched1_later_def ctab_reschedule_def sched1_eval)
  moreover have "map entry_Next (ctab_entries (cron sched1)) = [0]"
    by (simp add: sched1_eval)
  ultimately show ?thesis
    using reachable_sched1 by blast
qed

subsection \<open>An expression the cron library refuses\<close>

text \<open>
  Claim C6. When the cron library refuses the expression, \<open>Cron\<close> returns the
  library's error from the call itself and registers nothing: the registry and the job
  list are as before, and no entry is added under the name.
\<close>

theorem Cron_invalid_expression_not_registered:
  assumes "fst (cron_AddFunc L expr fn (cron s)) = Inl e"
  shows "fst (Cron L s name expr fn) = Some e \<and>
         jobs (snd (Cron L s name expr fn)) = jobs s \<and>
         Jobs (snd (Cron L s name expr fn)) = Jobs s \<and>
         map_of (jobs (snd (Cron L s name expr fn))) name = map_of (jobs s) name"
  using assms by (cases rule: Cron_cases [of L expr fn s name]) (simp_all add: Jobs_def)

theorem Cron_invalid_expression_not_registered_witness:
  "fst (cron_AddFunc crontab ''invalid expression'' 4 (cron sched0)) =
     Inl (CronError ''invalid expression'') \<and>
   fst (Cron crontab sched0 ''invalid-job'' ''invalid expression'' 4) =
     Some (CronError ''invalid expression'') \<and>
   Jobs (snd (Cron crontab sched0 ''invalid-job'' ''invalid expression'' 4)) = [] \<and>
   map_of (jobs (snd (Cron crontab sched0 ''invalid-job'' ''invalid expression'' 4)))
     ''invalid-job'' = None"
proof -
  have refused: "fst (cron_AddFunc crontab ''invalid expression'' 4 (cron sched0)) =
     Inl (CronError ''invalid expression'')"
    by (simp add: crontab_defs shape_ok_invalid)
  have empty: "Jobs sched0 = []" "map_of (jobs sched0) ''invalid-job'' = None"
    by (simp_all add: sched0_eval Jobs_def)
  from Cron_invalid_expression_not_registered [OF refused, of "''invalid-job''"] refused empty
  show ?thesis by simp
qed

subsection \<open>Stopping a scheduler that is not running\<close>

text \<open>
  Claim C7. \<open>Stop\<close> on a scheduler that is not running returns a context that is
  already done, without a call into the cron library and without a log line; in
  particular on a scheduler that was never started. After any \<open>Stop\<close> the scheduler is
  not running, so a second \<open>Stop\<close> returns a context that is already done as well.
\<close>

theorem Stop_when_stopped:
  "(\<not> Running s \<longrightarrow>
      is_done (ctx_done (snd (Stop L s))) (fst (Stop L s)) \<and>
      \<not> Running (snd (Stop L s)) \<and>
      cron (snd (Stop L s)) = cron s \<and>
      jobs (snd (Stop L s)) = jobs s \<and>
      events (snd (Stop L s)) = events s) \<and>
   is_done (ctx_done (snd (Stop L (New L opts)))) (fst (Stop L (New L opts))) \<and>
   is_done (ctx_done (snd (Stop L (snd (Stop L s))))) (fst (Stop L (snd (Stop L s))))"
proof -
  have stopped: "is_done (ctx_done (snd (Stop L t))) (fst (Stop L t)) \<and>
      \<not> Running (snd (Stop L t)) \<and>
      cron (snd (Stop L t)) = cron t \<and>
      jobs (snd (Stop L t)) = jobs t \<and>
      events (snd (Stop L t)) = events t" if "\<not> started t" for t :: "'a Scheduler"
    using that by (simp add: Stop_stopped Running_def)
  have "\<not> started (New L opts)"
    by (simp add: New_def Let_def)
  with stopped [of "New L opts"] stopped [of s] stopped [of "snd (Stop L s)"]
    Stop_not_started [of L s]
  show ?thesis
    by (simp add: Running_def)
qed

theorem Stop_when_stopped_witness:
  "\<not> Running sched0 \<and>
   fst (Stop crontab sched0) = WithCancel 0 Background \<and>
   is_done (ctx_done (snd (Stop crontab sched0))) (fst (Stop crontab sched0)) \<and>
   cron (snd (Stop crontab sched0)) = cron sched0 \<and>
   is_done (ctx_done (snd (Stop crontab (snd (Stop crontab (Start crontab sched0))))))
     (fst (Stop crontab (snd (Stop crontab (Start crontab sched0)))))"
proof -
  have stopped: "\<not> Running sched0"
    by (simp add: Running_def sched0_eval)
  have token: "fst (Stop crontab sched0) = WithCancel 0 Background"
    by (simp add: Stop_sched0)
  from Stop_when_stopped [of sched0 crontab "[]"]
    Stop_when_stopped [of "Start crontab sched0" crontab "[]"] stopped token
  show ?thesis by blast
qed

subsection \<open>Starting twice\<close>

text \<open>
  Claim C8. After \<open>Start\<close> the scheduler is running; a second \<open>Start\<close> changes
  nothing, so the scheduler is still running with the same jobs, which are the jobs it
  had before the first call. A new scheduler is not running, and neither is one after
  \<open>Stop\<close>.
\<close>

theorem Start_idempotent:
  "Running (Start L s) \<and>
   Start L (Start L s) = Start L s \<and>
   Jobs (Start L (Start L s)) = Jobs (Start L s) \<and>
   Jobs (Start L s) = Jobs s \<and>
   \<not> Running (New L opts) \<and>
   \<not> Running (snd (Stop L s))"
proof -
  have running: "started (Start L s)"
    by (simp add: Start_def Let_def)
  then have again: "Start L (Start L s) = Start L s"
    by (simp add: Start_def [of L "Start L s"])
  have same_jobs: "Jobs (Start L s) = Jobs s"
    by (simp add: Start_def Jobs_def Let_def)
  have fresh: "\<not> started (New L opts)"
    by (simp add: New_def Let_def)
  from running again same_jobs fresh Stop_not_started [of L s] show ?thesis
    by (simp add: Running_def)
qed

subsection \<open>Removing a job\<close>

lemma Jobs_delete:
  assumes "list_all (\<lambda>(k, j). Name j = k) al"
  shows "map snd (AList.delete name al) = filter (\<lambda>j. Name j \<noteq> name) (map snd al)"
  using assms by (induction al) auto

lemma Remove_sched3_job2:
  "Remove crontab sched3 ''job2'' =
     (True,
      sched3\<lparr>cron := \<lparr>ctab_entries =
                [\<lparr>entry_ID = 1, entry_Spec = ''@every 1m0s'', entry_Next = 0, entry_Job = 1\<rparr>,
                 \<lparr>entry_ID = 3, entry_Spec = ''0 0 * * *'', entry_Next = 0, entry_Job = 3\<rparr>],
              ctab_next = 3, ctab_running = False,
              ctab_options = [CronWithLocation 0, CronWithLogger 0, CronWithChain [Recover 0]],
              ctab_stops = 0\<rparr>,
        jobs := [(''job1'', \<lparr>Name = ''job1'', Schedule = ''@every 1m0s'', EntryID = 1\<rparr>),
                 (''job3'', \<lparr>Name = ''job3'', Schedule = ''0 0 * * *'', EntryID = 3\<rparr>)],
        events := [scheduled_event ''job1'' ''@every 1m0s'',
                scheduled_event ''job2'' ''@every 1h0m0s'',
                scheduled_event ''job3'' ''0 0 * * *'',
                (LevelDebug, ''job removed'', [(''name'', AStr ''job2'')])]\<rparr>)"
  by (simp add: sched3_eval Remove_def crontab_defs)

text \<open>
  Claim C9. \<open>Remove\<close> returns true exactly when the name is registered. Then the
  name is registered no longer, every other name keeps its entry, and the job list is
  the former one without the job of that name. When the name is not registered,
  \<open>Remove\<close> returns false and the scheduler, hence the job list, is unchanged.
\<close>

theorem Remove_result:
  "fst (Remove L s name) = (name \<in> fst ` set (jobs s)) \<and>
   (name \<in> fst ` set (jobs s) \<longrightarrow>
      map_of (jobs (snd (Remove L s name))) name = None \<and>
      name \<notin> fst ` set (jobs (snd (Remove L s name))) \<and>
      (\<forall>k. k \<noteq> name \<longrightarrow> map_of (jobs (snd (Remove L s name))) k = map_of (jobs s) k)) \<and>
   (name \<notin> fst ` set (jobs s) \<longrightarrow>
      snd (Remove L s name) = s \<and> Jobs (snd (Remove L s name)) = Jobs s) \<and>
   (reachable L s \<longrightarrow>
      Jobs (snd (Remove L s name)) = filter (\<lambda>j. Name j \<noteq> name) (Jobs s))"
proof (cases "map_of (jobs s) name")
  case None
  then have absent: "name \<notin> fst ` set (jobs s)"
    by (simp add: map_of_eq_None_iff)
  from None have same: "Remove L s name = (False, s)"
    by (simp add: Remove_def)
  have "filter (\<lambda>j. Name j \<noteq> name) (Jobs s) = Jobs s" if "reachable L s"
  proof -
    from that have "list_all (\<lambda>(k, j). Name j = k) (jobs s)"
      using reachable_registry_ok [of L s] by (simp add: registry_ok_def)
    then have "map snd (AList.delete name (jobs s)) = filter (\<lambda>j. Name j \<noteq> name) (Jobs s)"
      unfolding Jobs_def by (rule Jobs_delete)
    with absent show ?thesis
      by (simp add: Jobs_def)
  qed
  with absent same show ?thesis by simp
next
  case (Some job)
  then have present: "name \<in> fst ` set (jobs s)"
    by (metis map_of_eq_None_iff option.distinct(1))
  from Some have result: "Remove L s name =
      (True,
       s\<lparr>cron := cron_Remove L (EntryID job) (cron s),
         jobs := AList.delete name (jobs s),
         events := events s @ [(LevelDebug, ''job removed'', [(''name'', AStr name)])]\<rparr>)"
    by (simp add: Remove_def)
  have gone: "map_of (AList.delete name (jobs s)) name = None"
    by (simp add: delete_conv')
  have gone': "name \<notin> fst ` set (AList.delete name (jobs s))"
    by (rule delete_notin_dom)
  have others: "\<forall>k. k \<noteq> name \<longrightarrow> map_of (AList.delete name (jobs s)) k = map_of (jobs s) k"
    by (simp add: delete_conv')
  have "map snd (AList.delete name (jobs s)) = filter (\<lambda>j. Name j \<noteq> name) (Jobs s)"
    if "reachable L s"
  proof -
    from that have "list_all (\<lambda>(k, j). Name j = k) (jobs s)"
      using reachable_registry_ok [of L s] by (simp add: registry_ok_def)
    then show ?thesis
      unfolding Jobs_def by (rule Jobs_delete)
  qed
  with present result gone gone' others show ?thesis
    by (simp add: Jobs_def)
qed

theorem Remove_result_witness:
  "reachable crontab sched3 \<and>
   ''job2'' \<in> fst ` set (jobs sched3) \<and> fst (Remove crontab sched3 ''job2'') \<and>
   map_of (jobs (snd (Remove crontab sched3 ''job2''))) ''job2'' = None \<and>
   Jobs (snd (Remove crontab sched3 ''job2'')) = filter (\<lambda>j. Name j \<noteq> ''job2'') (Jobs sched3) \<and>
   Jobs (snd (Remove crontab sched3 ''job2'')) =
     [\<lparr>Name = ''job1'', Schedule = ''@every 1m0s'', EntryID = 1\<rparr>,
      \<lparr>Name = ''job3'', Schedule = ''0 0 * * *'', EntryID = 3\<rparr>] \<and>
   ''non-existent'' \<notin> fst ` set (jobs sched3) \<and> \<not> fst (Remove crontab sched3 ''non-existent'') \<and>
   Jobs (snd (Remove crontab sched3 ''non-existent'')) = Jobs sched3"
proof -
  have present: "''job2'' \<in> fst ` set (jobs sched3)"
    by (simp add: sched3_eval)
  have absent: "''non-existent'' \<notin> fst ` set (jobs sched3)"
    by (simp add: sched3_eval)
  have list: "Jobs (snd (Remove crontab sched3 ''job2'')) =
     [\<lparr>Name = ''job1'', Schedule = ''@every 1m0s'', EntryID = 1\<rparr>,
      \<lparr>Name = ''job3'', Schedule = ''0 0 * * *'', EntryID = 3\<rparr>]"
    by (simp add: Remove_sched3_job2 Jobs_def)
  from Remove_result [of crontab sched3 "''job2''"] present reachable_sched3
  have "fst (Remove crontab sched3 ''job2'') \<and>
    map_of (jobs (snd (Remove crontab sched3 ''job2''))) ''job2'' = None \<and>
    Jobs (snd (Remove crontab sched3 ''job2'')) = filter (\<lambda>j. Name j \<noteq> ''job2'') (Jobs sched3)"
    by blast
  moreover
  from Remove_result [of crontab sched3 "''non-existent''"] absent
  have "\<not> fst (Remove crontab sched3 ''non-existent'') \<and>
    Jobs (snd (Remove crontab sched3 ''non-existent'')) = Jobs sched3"
    by blast
  ultimately show ?thesis
    using present absent list reachable_sched3 by blast
qed

subsection \<open>The context of a job body\<close>


























subsection \<open>Stopping a scheduler that is running\<close>

text \<open>
  On a running scheduler \<open>Stop\<close> clears the running flag, calls the stored cancel
  function, so that the run context, which is what \<open>jobContext\<close> hands to the job
  bodies, is done, and returns the context that the cron library's \<open>Stop\<close> returns.
  When that context is done is the library's business.
\<close>

lemma Stop_running:
  assumes "reachable L s" and "Running s"
  shows "fst (Stop L s) = fst (cron_Stop L (cron s)) \<and>
         \<not> Running (snd (Stop L s)) \<and>
         runCtx (snd (Stop L s)) = runCtx s \<and>
         (\<exists>c. runCtx s = Some c \<and> jobContext s = Some c \<and>
              is_done (ctx_done (snd (Stop L s))) c)"
proof -
  have kept: "runCtx (snd (Stop L s)) = runCtx s"
    by (auto simp: Stop_def Let_def split: prod.splits option.splits)
  from assms(1) have "lifecycle_ok s"
    by (rule reachable_lifecycle_ok)
  with assms(2) obtain i where
    run: "runCtx s = Some (WithCancel i (baseContext s))" and
    cancel: "runCancel s = Some (WithCancel i (baseContext s))"
    by (auto simp: lifecycle_ok_def Running_def)
  from run have "jobContext s = Some (WithCancel i (baseContext s))"
    by (simp add: jobContext_def)
  moreover from assms(2) cancel
  have "is_done (ctx_done (snd (Stop L s))) (WithCancel i (baseContext s))"
    by (simp add: Stop_def Running_def Let_def split: prod.splits)
  moreover from assms(2) have "fst (Stop L s) = fst (cron_Stop L (cron s))"
    by (auto simp: Stop_def Running_def Let_def split: prod.splits option.splits)
  ultimately show ?thesis
    using run kept Stop_not_started [of L s] by (simp add: Running_def)
qed

subsection \<open>The wrapper chain\<close>

text \<open>
  Whatever the options, the chain that \<open>New\<close> hands to the cron library begins
  with the library's \<open>Recover\<close> wrapper.
\<close>

lemma chain_of_Recover: "\<exists>rest. chain_of cfg = Recover (logger cfg) # rest"
  by (simp add: chain_of_def)

lemma New_cron: "cron (New L opts) = cron_New L (cron_options (fold apply_option opts default_config))"
  by (simp add: New_def Let_def)

end
